theory Spec2Isabelle
  imports Main "HOL-Library.Sublist" "HOL-Library.AList"
begin

section \<open>Python text\<close>

text \<open>
  A Python \<open>str\<close> is a sequence of Unicode code points, so a character is a natural
  number and a string a list of them. \<open>ascii\<close> writes a literal whose characters are
  all ASCII; the Czech labels of the program are spelled out code point by code point.
\<close>

type_synonym ustr = "nat list"

definition ascii :: "string \<Rightarrow> ustr" where
  "ascii s = map of_char s"

text \<open>
  \<open>str.isspace\<close> on one character: the code points Python treats as whitespace, which
  are the ones \<open>str.strip()\<close> removes from both ends.
\<close>

definition isspace :: "nat \<Rightarrow> bool" where
  "isspace c \<longleftrightarrow>
     (9 \<le> c \<and> c \<le> 13) \<or> (28 \<le> c \<and> c \<le> 32) \<or> c = 133 \<or> c = 160 \<or> c = 5760 \<or>
     (8192 \<le> c \<and> c \<le> 8202) \<or> c = 8232 \<or> c = 8233 \<or> c = 8239 \<or> c = 8287 \<or> c = 12288"

definition strip :: "ustr \<Rightarrow> ustr" where
  "strip s = rev (dropWhile isspace (rev (dropWhile isspace s)))"

definition endswith :: "ustr \<Rightarrow> ustr \<Rightarrow> bool" where
  "endswith s suf = suffix suf s"

text \<open>\<open>needle in hay\<close> on strings: \<open>needle\<close> occurs as a contiguous piece of \<open>hay\<close>.\<close>

fun contains :: "ustr \<Rightarrow> ustr \<Rightarrow> bool" where
  "contains needle [] = (needle = [])"
| "contains needle (c # cs) = (prefix needle (c # cs) \<or> contains needle cs)"

text \<open>
  \<open>s.replace(old, new)\<close>: every occurrence of \<open>old\<close>, found from the left without
  overlap, is replaced. With an empty \<open>old\<close> Python puts \<open>new\<close> before every character
  and at the end.
\<close>

function replace :: "ustr \<Rightarrow> ustr \<Rightarrow> ustr \<Rightarrow> ustr" where
  "replace s old new =
     (if old = [] then new @ concat (map (\<lambda>c. c # new) s)
      else if s = [] then []
      else if prefix old s then new @ replace (drop (length old) s) old new
      else hd s # replace (tl s) old new)"
  by pat_completeness auto
termination
  by (relation "measure (\<lambda>(s, old, new). length s)") auto

text \<open>
  \<open>ascii_lower\<close> is \<open>str.lower\<close> on the ASCII letters. Python's \<open>str.lower\<close> follows the
  Unicode case tables, which are no part of the program: the functions below take it as
  the parameter \<open>lower\<close>, and \<open>map ascii_lower\<close> stands for it on ASCII text.
\<close>

definition ascii_lower :: "nat \<Rightarrow> nat" where
  "ascii_lower c = (if 65 \<le> c \<and> c \<le> 90 then c + 32 else c)"

section \<open>Outcomes\<close>

text \<open>
  Every way the Python leaves a function other than by returning: \<open>sys.exit(n)\<close>, and the
  exceptions that the calls of the program raise.
\<close>

datatype error = SystemExit int | ValueError | KeyError

text \<open>A \<open>for\<close> loop whose body may raise: the first exception ends it.\<close>

fun for_each :: "('a \<Rightarrow> 's \<Rightarrow> error + 's) \<Rightarrow> 'a list \<Rightarrow> 's \<Rightarrow> error + 's" where
  "for_each body [] s = Inr s"
| "for_each body (x # xs) s =
     (case body x s of Inl e \<Rightarrow> Inl e | Inr s' \<Rightarrow> for_each body xs s')"

section \<open>Input validator\<close>

text \<open>
  The district index is a Python dict, which keeps its keys in insertion order: an
  association list of (name, url). The loop of \<open>validate_user_input\<close> stops at the first
  entry whose url, stripped, equals the stripped user url.
\<close>

type_synonym districts = "(ustr \<times> ustr) list"

definition district_from_filename :: "(ustr \<Rightarrow> ustr) \<Rightarrow> ustr \<Rightarrow> ustr" where
  "district_from_filename lower output_filename =
     strip (replace (replace (lower output_filename) (ascii ''.csv'') []) (ascii ''vysledky_'') [])"

definition district_from_url :: "(ustr \<Rightarrow> ustr) \<Rightarrow> ustr \<Rightarrow> districts \<Rightarrow> ustr option" where
  "district_from_url lower user_url ds =
     map_option (\<lambda>(name, url). lower name)
       (find (\<lambda>(name, url). strip user_url = strip url) ds)"

definition validate_user_input ::
  "(ustr \<Rightarrow> ustr) \<Rightarrow> ustr \<Rightarrow> ustr \<Rightarrow> districts \<Rightarrow> error + unit" where
  "validate_user_input lower user_url output_filename ds =
     (if \<not> endswith (lower output_filename) (ascii ''.csv'')
         \<or> 34 \<in> set output_filename \<or> 39 \<in> set output_filename
      then Inl (SystemExit 1)
      else case district_from_url lower user_url ds of
             None \<Rightarrow> Inl (SystemExit 1)
           | Some d \<Rightarrow>
               if \<not> contains (district_from_filename lower output_filename) d
               then Inl (SystemExit 1)
               else Inr ())"

section \<open>Fetched documents\<close>

text \<open>
  The HTML parser is a library. A parsed document is modelled by what the program asks of
  it. For a municipality page that is the list of its tables, \<open>soup.find_all("table")\<close>
  in document order (\<open>soup.find("table")\<close> is the first of them), and for each table:
  the texts of its header cells with \<open>rowspan="2"\<close>, the texts of its data cells of class
  \<open>cislo\<close>, and for each of its rows the texts of the row's data cells.
\<close>

record table =
  th_rowspan2 :: "ustr list"
  td_cislo :: "ustr list"
  trs :: "ustr list list"

type_synonym page = "table list"

text \<open>
  A row of the district page: the text of its first data cell of class \<open>overflow_name\<close>
  if it has one, and whether it has a hyperlink, with the \<open>href\<close> of the first one
  (\<open>Some None\<close> is a link without this attribute).
\<close>

record unit_row =
  overflow_name :: "ustr option"
  a_href :: "ustr option option"

section \<open>Unit extractor\<close>

text \<open>
  The value stored for a municipality: the url and the municipality code, which the
  inner dict holds under its two keys. The result is a dict from names to such values,
  in insertion order; assigning to a key that is there keeps its place and replaces its
  value, as \<open>AList.update\<close> does.

  \<open>urllib.parse.urljoin\<close> and the reading of the query parameter \<open>xobec\<close>
  (\<open>parse_qs(urlparse(full_url).query).get("xobec", [None])[0]\<close>) are library calls,
  taken as the parameters \<open>urljoin\<close> and \<open>xobec\<close>. Both may raise (\<open>urljoin\<close> and
  \<open>urlparse\<close> raise \<open>ValueError\<close> on a reference whose authority is malformed), and
  nothing in the function catches it: the exception ends the loop and the function.
\<close>

record unit_data =
  url :: ustr
  cislo_obce :: "ustr option"

type_synonym district_units = "(ustr \<times> unit_data) list"

definition unit_of_row ::
  "(ustr \<Rightarrow> ustr option \<Rightarrow> error + ustr) \<Rightarrow> (ustr \<Rightarrow> error + ustr option) \<Rightarrow> ustr \<Rightarrow> unit_row
     \<Rightarrow> error + (ustr \<times> unit_data) option" where
  "unit_of_row urljoin xobec base_url row =
     (case (overflow_name row, a_href row) of
        (Some text, Some href) \<Rightarrow>
          (case urljoin base_url href of
             Inl e \<Rightarrow> Inl e
           | Inr full_url \<Rightarrow>
               (case xobec full_url of
                  Inl e \<Rightarrow> Inl e
                | Inr district_units_number \<Rightarrow>
                    Inr (Some (strip text,
                               \<lparr>url = full_url, cislo_obce = district_units_number\<rparr>))))
      | _ \<Rightarrow> Inr None)"

definition extract_district_units ::
  "(ustr \<Rightarrow> ustr option \<Rightarrow> error + ustr) \<Rightarrow> (ustr \<Rightarrow> error + ustr option) \<Rightarrow> unit_row list
     \<Rightarrow> ustr \<Rightarrow> error + district_units" where
  "extract_district_units urljoin xobec rows base_url =
     for_each (\<lambda>row district_units.
                 case unit_of_row urljoin xobec base_url row of
                   Inl e \<Rightarrow> Inl e
                 | Inr None \<Rightarrow> Inr district_units
                 | Inr (Some (name, u)) \<Rightarrow> Inr (AList.update name u district_units))
       rows []"

text \<open>
  The two library calls on the references of the examples below. \<open>urljoin_sample\<close>:
  without a reference, or with an empty one, the base is returned; a reference that opens
  an authority with a bracket that is never closed (as \<open>//[x\<close>) raises \<open>ValueError\<close>
  (\<open>Invalid IPv6 URL\<close>); a relative reference such as \<open>a?xobec=501\<close> is appended to a
  base that ends in a slash. \<open>xobec_sample\<close>: the value of \<open>xobec\<close> in a url whose query
  is this one parameter, \<open>None\<close> in a url without it.
\<close>

definition urljoin_sample :: "ustr \<Rightarrow> ustr option \<Rightarrow> error + ustr" where
  "urljoin_sample base href =
     (case href of
        None \<Rightarrow> Inr base
      | Some h \<Rightarrow>
          if h = [] then Inr base
          else if prefix (ascii ''//['') h \<and> 93 \<notin> set h then Inl ValueError
          else Inr (base @ h))"

definition xobec_sample :: "ustr \<Rightarrow> error + ustr option" where
  "xobec_sample full_url =
     (case dropWhile (\<lambda>c. c \<noteq> 63) full_url of
        [] \<Rightarrow> Inr None
      | q # query \<Rightarrow>
          if prefix (ascii ''xobec='') query \<and> drop 6 query \<noteq> [] then Inr (Some (drop 6 query))
          else Inr None)"

section \<open>Turnout collector\<close>

text \<open>
  A field of a collected row is a string or Python's \<open>None\<close> (a municipality code may
  be missing). \<open>get_page_content\<close> is the parameter \<open>fetch\<close>: the parsed page the site
  answers with, or \<open>None\<close> when the request fails; during one run of a collector the
  site answers a url in one way. The pause after each request has no effect on the
  values.
\<close>

type_synonym cell = "ustr option"

definition OBEC :: ustr where
  "OBEC = ascii ''Obec''"

definition CISLO_OBCE :: ustr where
  "CISLO_OBCE = [268, 237] @ ascii ''slo obce''"

fun turnout_loop ::
  "(ustr \<Rightarrow> page option) \<Rightarrow> district_units \<Rightarrow> ustr list option \<Rightarrow> cell list list
     \<Rightarrow> ustr list option \<times> cell list list" where
  "turnout_loop fetch [] headers rows = (headers, rows)"
| "turnout_loop fetch ((district_unit, data) # rest) headers rows =
     (case fetch (url data) of
        None \<Rightarrow> turnout_loop fetch rest headers rows
      | Some [] \<Rightarrow> turnout_loop fetch rest headers rows
      | Some (table # _) \<Rightarrow>
          let headers' = (case headers of
                            None \<Rightarrow> Some ([CISLO_OBCE, OBEC] @ map strip (th_rowspan2 table))
                          | Some h \<Rightarrow> Some h);
              data_row = map strip (drop 3 (td_cislo table))
          in turnout_loop fetch rest headers'
               (rows @ [[Some district_unit, cislo_obce data] @ map Some data_row]))"

definition get_district_turnout_summary ::
  "(ustr \<Rightarrow> page option) \<Rightarrow> district_units \<Rightarrow> ustr list option \<times> cell list list" where
  "get_district_turnout_summary fetch district_units_dict =
     turnout_loop fetch district_units_dict None []"

section \<open>Party results collector\<close>

text \<open>
  \<open>int(party_number)\<close> raises \<open>ValueError\<close> on a string that is no integer literal.
  Python's \<open>int\<close> accepts every Unicode decimal digit, so it is the parameter \<open>int_of\<close>
  (\<open>None\<close> for \<open>ValueError\<close>); \<open>ascii_int\<close> is \<open>int\<close> on ASCII text: surrounding
  whitespace is dropped, then an optional sign and decimal digits, which single
  underscores may separate.
\<close>

definition digit_groups :: "ustr \<Rightarrow> ustr list" where
  "digit_groups s = foldr (\<lambda>c gs. if c = 95 then [] # gs else (c # hd gs) # tl gs) s [[]]"

definition ascii_nat :: "ustr \<Rightarrow> int option" where
  "ascii_nat s =
     (let gs = digit_groups s
      in if [] \<in> set gs \<or> list_ex (\<lambda>c. c < 48 \<or> 57 < c) (concat gs) then None
         else Some (foldl (\<lambda>n c. 10 * n + (int c - 48)) 0 (concat gs)))"

definition ascii_int :: "ustr \<Rightarrow> int option" where
  "ascii_int s =
     (case strip s of
        [] \<Rightarrow> None
      | c # cs \<Rightarrow>
          if c = 45 then map_option uminus (ascii_nat cs)
          else if c = 43 then ascii_nat cs
          else ascii_nat (c # cs))"

text \<open>
  The state of the loops: \<open>results\<close> is the dict of the municipality at hand (party name
  to votes), \<open>party_list\<close> and \<open>seen_parties\<close> are shared by all municipalities.
  \<open>party_row\<close> is the body of the innermost loop for one row, given the texts of its data
  cells.
\<close>

type_synonym party_acc = "(ustr \<times> ustr) list \<times> (int \<times> ustr) list \<times> ustr set"

definition party_row :: "(ustr \<Rightarrow> int option) \<Rightarrow> ustr list \<Rightarrow> party_acc \<Rightarrow> error + party_acc" where
  "party_row int_of cell acc =
     (case acc of (results, party_list, seen_parties) \<Rightarrow>
        if 3 \<le> length cell then
          let party_number = strip (cell ! 0);
              party_name = strip (cell ! 1);
              votes = strip (cell ! 2)
          in if party_name \<in> {[], ascii ''-''} \<or> votes \<in> {[], ascii ''-''} then Inr acc
             else
               let results' = AList.update party_name votes results
               in if party_number \<notin> seen_parties then
                    (case int_of party_number of
                       None \<Rightarrow> Inl ValueError
                     | Some n \<Rightarrow>
                         Inr (results', party_list @ [(n, party_name)],
                              insert party_number seen_parties))
                  else Inr (results', party_list, seen_parties)
        else Inr acc)"

definition party_tables :: "(ustr \<Rightarrow> int option) \<Rightarrow> table list \<Rightarrow> party_acc \<Rightarrow> error + party_acc" where
  "party_tables int_of tables acc =
     for_each (\<lambda>table. for_each (party_row int_of) (trs table)) tables acc"

text \<open>
  The state across municipalities: \<open>party_list\<close>, \<open>seen_parties\<close> and
  \<open>district_units_data\<close>, the dict from municipality name to its \<open>results\<close>.
\<close>

type_synonym party_state =
  "(int \<times> ustr) list \<times> ustr set \<times> (ustr \<times> (ustr \<times> ustr) list) list"

definition party_unit ::
  "(ustr \<Rightarrow> int option) \<Rightarrow> (ustr \<Rightarrow> page option) \<Rightarrow> ustr \<times> unit_data \<Rightarrow> party_state
     \<Rightarrow> error + party_state" where
  "party_unit int_of fetch entry st =
     (case (entry, st) of ((district_unit, data), (party_list, seen_parties, district_units_data)) \<Rightarrow>
        case fetch (url data) of
          None \<Rightarrow> Inr st
        | Some soup \<Rightarrow>
            let tables = tl soup
            in if tables = [] then Inr st
               else case party_tables int_of tables ([], party_list, seen_parties) of
                      Inl e \<Rightarrow> Inl e
                    | Inr (results, party_list', seen_parties') \<Rightarrow>
                        Inr (party_list', seen_parties',
                             AList.update district_unit results district_units_data))"

definition party_names_ordered :: "(int \<times> ustr) list \<Rightarrow> ustr list" where
  "party_names_ordered party_list = map snd (sort_key fst party_list)"

definition party_table_row :: "ustr list \<Rightarrow> ustr \<times> (ustr \<times> ustr) list \<Rightarrow> cell list" where
  "party_table_row names entry =
     (case entry of (district_unit, votes) \<Rightarrow>
        Some district_unit #
        map (\<lambda>name. Some (case map_of votes name of None \<Rightarrow> ascii ''0'' | Some v \<Rightarrow> v)) names)"

definition get_district_party_results ::
  "(ustr \<Rightarrow> int option) \<Rightarrow> (ustr \<Rightarrow> page option) \<Rightarrow> district_units
     \<Rightarrow> error + (ustr list \<times> cell list list)" where
  "get_district_party_results int_of fetch district_units_dict =
     (case for_each (party_unit int_of fetch) district_units_dict ([], {}, []) of
        Inl e \<Rightarrow> Inl e
      | Inr (party_list, seen_parties, district_units_data) \<Rightarrow>
          let names = party_names_ordered party_list
          in Inr (OBEC # names, map (party_table_row names) district_units_data))"

section \<open>Table merger\<close>

text \<open>
  The data frames are pandas objects. A frame is modelled by its column labels and its rows;
  a field is a string or a missing value (\<open>None\<close>: pandas' \<open>None\<close> and \<open>NaN\<close>, both
  written to the CSV file as an empty field).

  \<open>pd.DataFrame(rows, columns=cols)\<close> with a list of labels: rows shorter than the longest
  one are filled up with missing values, and \<open>ValueError\<close> is raised when the longest row
  and \<open>cols\<close> differ in length. Without rows the frame has the labels and no row.
\<close>

record frame =
  columns :: "ustr list"
  data :: "cell list list"

definition DataFrame :: "cell list list \<Rightarrow> ustr list \<Rightarrow> error + frame" where
  "DataFrame rows cols =
     (if rows = [] then Inr \<lparr>columns = cols, data = []\<rparr>
      else
        let width = fold max (map length rows) 0
        in if width \<noteq> length cols then Inl ValueError
           else Inr \<lparr>columns = cols,
                     data = map (\<lambda>r. r @ replicate (width - length r) None) rows\<rparr>)"

text \<open>The dict given to \<open>df1.rename(columns=...)\<close>: six labels that lack a space.\<close>

definition rename_map :: "(ustr \<times> ustr) list" where
  "rename_map =
     [(ascii ''Voli'' @ [269] @ ascii ''iv seznamu'', ascii ''Voli'' @ [269] @ ascii ''i v seznamu''),
      (ascii ''Vydan'' @ [233] @ ascii ''ob'' @ [225] @ ascii ''lky'',
       ascii ''Vydan'' @ [233] @ ascii '' ob'' @ [225] @ ascii ''lky''),
      (ascii ''Volebn'' @ [237, 250, 269] @ ascii ''ast v %'',
       ascii ''Volebn'' @ [237] @ ascii '' '' @ [250, 269] @ ascii ''ast v %''),
      (ascii ''Odevzdan'' @ [233] @ ascii ''ob'' @ [225] @ ascii ''lky'',
       ascii ''Odevzdan'' @ [233] @ ascii '' ob'' @ [225] @ ascii ''lky''),
      (ascii ''Platn'' @ [233] @ ascii ''hlasy'', ascii ''Platn'' @ [233] @ ascii '' hlasy''),
      (ascii ''% platn'' @ [253] @ ascii ''chhlas'' @ [367],
       ascii ''% platn'' @ [253] @ ascii ''ch hlas'' @ [367])]"

definition canonical_label :: "ustr \<Rightarrow> ustr" where
  "canonical_label c = (case map_of rename_map c of None \<Rightarrow> c | Some c' \<Rightarrow> c')"

definition rename :: "frame \<Rightarrow> frame" where
  "rename df = df\<lparr>columns := map canonical_label (columns df)\<rparr>"

text \<open>
  \<open>pd.merge(left, right, on=key, how="outer")\<close>. The key must label exactly one column of
  each frame: a frame without it raises \<open>KeyError\<close>, one with several raises
  \<open>ValueError\<close>, the right frame being looked at first. The result has the columns of
  \<open>left\<close> followed by those of \<open>right\<close> without its key column; a label that both sides
  have gets the suffix \<open>_x\<close> on the left and \<open>_y\<close> on the right. A row of \<open>left\<close> is
  joined with every row of \<open>right\<close> that has the same key (two missing keys are the
  same key), or with missing values when there is none (\<open>join_left\<close>); a row of
  \<open>right\<close> whose key no row of \<open>left\<close> has comes with missing values in the columns
  of \<open>left\<close> other than the key (\<open>right_only\<close>). The order in which pandas returns these rows depends on its version (later ones
  sort them by key); here the rows that stem from \<open>left\<close> come first, each side in its own
  order. What pandas does with labels that are repeated within one frame, apart from the
  key, is not part of the model.
\<close>

definition key_position :: "ustr \<Rightarrow> ustr list \<Rightarrow> nat" where
  "key_position key cols = length (takeWhile (\<lambda>c. c \<noteq> key) cols)"

definition remove_nth :: "nat \<Rightarrow> 'a list \<Rightarrow> 'a list" where
  "remove_nth i xs = take i xs @ drop (Suc i) xs"

definition join_left :: "nat \<Rightarrow> nat \<Rightarrow> nat \<Rightarrow> cell list list \<Rightarrow> cell list \<Rightarrow> cell list list" where
  "join_left i j width right_rows l =
     (case filter (\<lambda>r. r ! j = l ! i) right_rows of
        [] \<Rightarrow> [l @ replicate width None]
      | rs \<Rightarrow> map (\<lambda>r. l @ remove_nth j r) rs)"

definition right_only :: "nat \<Rightarrow> nat \<Rightarrow> nat \<Rightarrow> cell list list \<Rightarrow> cell list list \<Rightarrow> cell list list" where
  "right_only i j width left_rows right_rows =
     map (\<lambda>r. (replicate width None)[i := r ! j] @ remove_nth j r)
       (filter (\<lambda>r. r ! j \<notin> set (map (\<lambda>l. l ! i) left_rows)) right_rows)"

definition merged_columns :: "ustr list \<Rightarrow> ustr list \<Rightarrow> ustr list" where
  "merged_columns lcols rcols =
     map (\<lambda>c. if c \<in> set rcols then c @ ascii ''_x'' else c) lcols @
     map (\<lambda>c. if c \<in> set lcols then c @ ascii ''_y'' else c) rcols"

definition merge_outer :: "frame \<Rightarrow> frame \<Rightarrow> ustr \<Rightarrow> error + frame" where
  "merge_outer left right key =
     (if key \<notin> set (columns right) then Inl KeyError
      else if 1 < count_list (columns right) key then Inl ValueError
      else if key \<notin> set (columns left) then Inl KeyError
      else if 1 < count_list (columns left) key then Inl ValueError
      else
        let i = key_position key (columns left);
            j = key_position key (columns right);
            rcols = remove_nth j (columns right)
        in Inr \<lparr>columns = merged_columns (columns left) rcols,
                data = concat (map (join_left i j (length rcols) (data right)) (data left)) @
                       right_only i j (length (columns left)) (data left) (data right)\<rparr>)"

text \<open>
  \<open>merge_two_tables\<close> returns the merged frame; writing it to the output file does not
  change it. \<open>headers1\<close> is \<open>None\<close> when the turnout collector found no page: pandas then
  numbers the columns, no column is labelled \<open>Obec\<close>, and the merge raises \<open>KeyError\<close>
  once the second frame has been built. \<open>headers2\<close> is always a list.
\<close>

definition merge_two_tables ::
  "ustr list option \<Rightarrow> cell list list \<Rightarrow> ustr list \<Rightarrow> cell list list \<Rightarrow> error + frame" where
  "merge_two_tables headers1 rows1 headers2 rows2 =
     (case headers1 of
        None \<Rightarrow> (case DataFrame rows2 headers2 of Inl e \<Rightarrow> Inl e | Inr df2 \<Rightarrow> Inl KeyError)
      | Some cols1 \<Rightarrow>
          (case DataFrame rows1 cols1 of
             Inl e \<Rightarrow> Inl e
           | Inr df1 \<Rightarrow>
               (case DataFrame rows2 headers2 of
                  Inl e \<Rightarrow> Inl e
                | Inr df2 \<Rightarrow> merge_outer (rename df1) df2 OBEC)))"

section \<open>The main script\<close>

text \<open>
  Steps 4 and 5 of \<open>main.py\<close>: both collectors run over the same municipalities and their
  tables are merged. \<open>fetch1\<close> and \<open>fetch2\<close> are the answers of the site during the first
  and the second round of requests.
\<close>

definition main_tables ::
  "(ustr \<Rightarrow> int option) \<Rightarrow> (ustr \<Rightarrow> page option) \<Rightarrow> (ustr \<Rightarrow> page option) \<Rightarrow> district_units
     \<Rightarrow> error + frame" where
  "main_tables int_of fetch1 fetch2 district_units_dict =
     (case get_district_turnout_summary fetch1 district_units_dict of
        (headers1, rows1) \<Rightarrow>
          (case get_district_party_results int_of fetch2 district_units_dict of
             Inl e \<Rightarrow> Inl e
           | Inr (headers2, rows2) \<Rightarrow> merge_two_tables headers1 rows1 headers2 rows2))"

section \<open>The party vocabulary as the specification describes it\<close>

text \<open>
  These definitions follow the words of the specification, not the loops of the code; the
  collector is compared with them below. A row counts when it has at least three data
  cells and neither its name nor its votes is empty or a dash: \<open>accepted_row\<close> gives its
  party number (as text), name and votes. \<open>encountered\<close> lists the (number, name) pairs
  of the rows that count, over all municipalities whose page was fetched, all tables but
  the first, in the order in which the collector meets them. \<open>first_seen\<close> keeps, for
  each number text, the first pair that has it.
\<close>

definition accepted_row :: "ustr list \<Rightarrow> (ustr \<times> ustr \<times> ustr) option" where
  "accepted_row cell =
     (if 3 \<le> length cell \<and> strip (cell ! 1) \<notin> {[], ascii ''-''}
           \<and> strip (cell ! 2) \<notin> {[], ascii ''-''}
      then Some (strip (cell ! 0), strip (cell ! 1), strip (cell ! 2))
      else None)"

definition unit_party_rows ::
  "(ustr \<Rightarrow> page option) \<Rightarrow> ustr \<times> unit_data \<Rightarrow> (ustr \<times> ustr \<times> ustr) list" where
  "unit_party_rows fetch entry =
     (case fetch (url (snd entry)) of
        None \<Rightarrow> []
      | Some soup \<Rightarrow> List.map_filter accepted_row (concat (map trs (tl soup))))"

definition encountered :: "(ustr \<Rightarrow> page option) \<Rightarrow> district_units \<Rightarrow> (ustr \<times> ustr) list" where
  "encountered fetch units =
     map (\<lambda>(number, name, votes). (number, name)) (concat (map (unit_party_rows fetch) units))"

fun first_seen :: "ustr set \<Rightarrow> (ustr \<times> ustr) list \<Rightarrow> (ustr \<times> ustr) list" where
  "first_seen seen [] = []"
| "first_seen seen ((number, name) # ps) =
     (if number \<in> seen then first_seen seen ps
      else (number, name) # first_seen (insert number seen) ps)"

section \<open>Properties of the input validator\<close>

lemma contains_Nil: "contains [] d"
  by (cases d) simp_all

lemma district_from_url_matches:
  assumes "(name, u) \<in> set ds" and "strip user_url = strip u"
  shows "\<exists>d. district_from_url lower user_url ds = Some d"
proof -
  have "find (\<lambda>(name, url). strip user_url = strip url) ds \<noteq> None"
    using assms by (auto simp: find_None_iff)
  then show ?thesis
    by (auto simp: district_from_url_def)
qed

text \<open>
  C2, as stated, at its own scenario. The district index is
  \<open>{"district a": "https://x/a", "district b": "https://x/b"}\<close>, the filename
  \<open>vysledky_district_a.csv\<close>, the url \<open>https://x/a\<close>. The string taken from the filename is
  \<open>district_a\<close>, with the underscore, which is no part of \<open>district a\<close>: the run ends with
  exit code 1, where the claim says that validation passes.
\<close>

theorem validate_user_input_scenario_exits:
  "validate_user_input (map ascii_lower) (ascii ''https://x/a'') (ascii ''vysledky_district_a.csv'')
     [(ascii ''district a'', ascii ''https://x/a''), (ascii ''district b'', ascii ''https://x/b'')]
   = Inl (SystemExit 1)"
  by (simp add: validate_user_input_def ascii_def district_from_url_def
      district_from_filename_def strip_def isspace_def ascii_lower_def endswith_def)

text \<open>
  C2, amended. For a filename that ends in \<open>.csv\<close> (whatever the case of its letters) and
  holds no quote, and a url that equals, both stripped, the url of an entry of the index,
  \<open>d\<close> being the lower-cased name of the first such entry: validation passes exactly when
  the string taken from the filename occurs in \<open>d\<close>, and ends the run with exit code 1
  otherwise.
\<close>

theorem validate_user_input_substring:
  assumes "endswith (lower output_filename) (ascii ''.csv'')"
    and "34 \<notin> set output_filename" and "39 \<notin> set output_filename"
    and "district_from_url lower user_url ds = Some d"
  shows "validate_user_input lower user_url output_filename ds =
           (if contains (district_from_filename lower output_filename) d
            then Inr () else Inl (SystemExit 1))"
  using assms by (simp add: validate_user_input_def)

text \<open>
  The scenario with the district written as the index has it: the filename
  \<open>vysledky_district a.csv\<close> passes with the url \<open>https://x/a\<close> and exits with the url
  \<open>https://x/b\<close>.
\<close>

theorem validate_user_input_substring_witness:
  "validate_user_input (map ascii_lower) (ascii ''https://x/a'') (ascii ''vysledky_district a.csv'')
     [(ascii ''district a'', ascii ''https://x/a''), (ascii ''district b'', ascii ''https://x/b'')]
   = Inr () \<and>
   validate_user_input (map ascii_lower) (ascii ''https://x/b'') (ascii ''vysledky_district a.csv'')
     [(ascii ''district a'', ascii ''https://x/a''), (ascii ''district b'', ascii ''https://x/b'')]
   = Inl (SystemExit 1)"
  using validate_user_input_substring [of "map ascii_lower" "ascii ''vysledky_district a.csv''"
      "ascii ''https://x/a''"
      "[(ascii ''district a'', ascii ''https://x/a''), (ascii ''district b'', ascii ''https://x/b'')]"
      "ascii ''district a''"]
    validate_user_input_substring [of "map ascii_lower" "ascii ''vysledky_district a.csv''"
      "ascii ''https://x/b''"
      "[(ascii ''district a'', ascii ''https://x/a''), (ascii ''district b'', ascii ''https://x/b'')]"
      "ascii ''district b''"]
  by (simp add: ascii_def district_from_url_def district_from_filename_def strip_def
      isspace_def ascii_lower_def endswith_def suffix_to_prefix)

text \<open>
  C9, amended. For a filename that passes the first check (it ends in \<open>.csv\<close> and holds
  no quote) and from which the empty string is derived, every url that equals, both
  stripped, the url of an entry of the index passes: the empty string occurs in every
  district name.
\<close>

theorem validate_user_input_empty_district:
  assumes "endswith (lower output_filename) (ascii ''.csv'')"
    and "34 \<notin> set output_filename" and "39 \<notin> set output_filename"
    and "district_from_filename lower output_filename = []"
    and "(name, u) \<in> set ds" and "strip user_url = strip u"
  shows "validate_user_input lower user_url output_filename ds = Inr ()"
proof -
  obtain d where "district_from_url lower user_url ds = Some d"
    using district_from_url_matches [OF assms(5,6)] by blast
  with assms(1-4) show ?thesis
    by (simp add: validate_user_input_def contains_Nil)
qed

theorem validate_user_input_empty_district_witness:
  "district_from_filename (map ascii_lower) (ascii ''vysledky_.csv'') = [] \<and>
   validate_user_input (map ascii_lower) (ascii ''https://x/b'') (ascii ''vysledky_.csv'')
     [(ascii ''district a'', ascii ''https://x/a''), (ascii ''district b'', ascii ''https://x/b'')]
   = Inr ()"
  using validate_user_input_empty_district [of "map ascii_lower" "ascii ''vysledky_.csv''"
      "ascii ''district b''" "ascii ''https://x/b''"
      "[(ascii ''district a'', ascii ''https://x/a''), (ascii ''district b'', ascii ''https://x/b'')]"
      "ascii ''https://x/b''"]
  by (simp add: ascii_def district_from_filename_def strip_def isspace_def ascii_lower_def
      endswith_def suffix_to_prefix)

text \<open>
  C9, as stated, fails for a filename that does not end in \<open>.csv\<close>: from \<open>vysledky_\<close>
  the empty string is derived, and with a url of the index the run still ends with exit
  code 1, at the first check.
\<close>

theorem validate_user_input_empty_district_no_csv:
  "district_from_filename (map ascii_lower) (ascii ''vysledky_'') = [] \<and>
   validate_user_input (map ascii_lower) (ascii ''https://x/b'') (ascii ''vysledky_'')
     [(ascii ''district a'', ascii ''https://x/a''), (ascii ''district b'', ascii ''https://x/b'')]
   = Inl (SystemExit 1)"
  by (simp add: validate_user_input_def ascii_def district_from_filename_def strip_def
      isspace_def ascii_lower_def endswith_def suffix_to_prefix)

section \<open>Properties of the unit extractor\<close>

lemma foldl_update_keys:
  "distinct (map fst acc) \<Longrightarrow>
   distinct (map fst (foldl (\<lambda>d p. AList.update (fst p) (snd p) d) acc q))"
  by (induction q arbitrary: acc) (simp_all add: distinct_update)

lemma foldl_update_map_of:
  "map_of (foldl (\<lambda>d p. AList.update (fst p) (snd p) d) acc q) n =
     (case filter (\<lambda>p. fst p = n) q of
        [] \<Rightarrow> map_of acc n
      | p # ps \<Rightarrow> Some (snd (last (p # ps))))"
proof (induction q arbitrary: acc)
  case Nil
  then show ?case by simp
next
  case (Cons a q)
  show ?case
    by (simp add: Cons.IH update_conv' split: list.split)
qed

lemma distinct_keys_filter:
  "distinct (map fst xs) \<Longrightarrow> map_of xs n = Some v \<Longrightarrow> filter (\<lambda>e. fst e = n) xs = [(n, v)]"
proof (induction xs)
  case Nil
  then show ?case by simp
next
  case (Cons a xs)
  show ?case
  proof (cases "fst a = n")
    case True
    with Cons.prems have "a = (n, v)" by (cases a) simp
    moreover from True Cons.prems have "filter (\<lambda>e. fst e = n) xs = []"
      by (auto simp: filter_empty_conv image_iff)
    ultimately show ?thesis by simp
  next
    case False
    with Cons show ?thesis by (cases a) auto
  qed
qed

lemma extract_district_units_for_each:
  assumes "map (unit_of_row urljoin xobec base_url) rows = map Inr q"
  shows "for_each (\<lambda>row district_units.
                 case unit_of_row urljoin xobec base_url row of
                   Inl e \<Rightarrow> Inl e
                 | Inr None \<Rightarrow> Inr district_units
                 | Inr (Some (name, u)) \<Rightarrow> Inr (AList.update name u district_units))
           rows acc
         = Inr (foldl (\<lambda>d p. AList.update (fst p) (snd p) d) acc (List.map_filter id q))"
  using assms
proof (induction rows arbitrary: q acc)
  case Nil
  then show ?case by (simp add: List.map_filter_simps)
next
  case (Cons row rows)
  from Cons.prems obtain p q' where q: "q = p # q'"
    and row: "unit_of_row urljoin xobec base_url row = Inr p"
    and rest: "map (unit_of_row urljoin xobec base_url) rows = map Inr q'"
    by (cases q) auto
  show ?case
    unfolding q using row Cons.IH [OF rest]
    by (cases p) (auto simp: List.map_filter_simps)
qed

lemma extract_district_units_raises:
  assumes "row \<in> set rows" and "unit_of_row urljoin xobec base_url row = Inl e"
  shows "\<exists>e'. extract_district_units urljoin xobec rows base_url = Inl e'"
proof -
  have "\<exists>e'. for_each (\<lambda>row district_units.
                 case unit_of_row urljoin xobec base_url row of
                   Inl e \<Rightarrow> Inl e
                 | Inr None \<Rightarrow> Inr district_units
                 | Inr (Some (name, u)) \<Rightarrow> Inr (AList.update name u district_units))
           rows acc = Inl e'" for acc
    using assms(1)
  proof (induction rows arbitrary: acc)
    case Nil
    then show ?case by simp
  next
    case (Cons r rows)
    show ?case
    proof (cases "unit_of_row urljoin xobec base_url r")
      case (Inl err)
      then show ?thesis by simp
    next
      case (Inr p)
      with Cons.prems assms(2) have "row \<in> set rows" by auto
      from Cons.IH [OF this] Inr show ?thesis
        by (cases p) (auto split: prod.splits)
    qed
  qed
  then show ?thesis
    by (simp add: extract_district_units_def)
qed

text \<open>
  C10, amended. \<open>q\<close> lists, in document order, what every row contributes when no row
  makes the library calls raise: nothing, or the stripped name with the url and the code
  of the row. The function then returns a dict, and for a name \<open>n\<close> that some qualifying
  row has, however many of them, the dict has exactly one entry under \<open>n\<close>, the entry of
  the last such row. A repeated name is so never the cause of an error; the function
  ends with an exception only when a library call raises on some row (lemma
  \<open>extract_district_units_raises\<close>).
\<close>

theorem extract_district_units_last_wins:
  assumes "map (unit_of_row urljoin xobec base_url) rows = map Inr q"
  shows "\<exists>d. extract_district_units urljoin xobec rows base_url = Inr d \<and>
           (\<forall>n \<in> fst ` set (List.map_filter id q).
              filter (\<lambda>e. fst e = n) d = [last (filter (\<lambda>p. fst p = n) (List.map_filter id q))])"
proof -
  let ?q = "List.map_filter id q"
  let ?d = "foldl (\<lambda>d p. AList.update (fst p) (snd p) d) [] ?q"
  have res: "extract_district_units urljoin xobec rows base_url = Inr ?d"
    unfolding extract_district_units_def by (rule extract_district_units_for_each [OF assms])
  have d: "distinct (map fst ?d)"
    by (rule foldl_update_keys) simp
  have "filter (\<lambda>e. fst e = n) ?d = [last (filter (\<lambda>p. fst p = n) ?q)]"
    if n: "n \<in> fst ` set ?q" for n
  proof -
    from n obtain p ps where f: "filter (\<lambda>p. fst p = n) ?q = p # ps"
      by (cases "filter (\<lambda>p. fst p = n) ?q") (auto simp: filter_empty_conv)
    have "last (p # ps) \<in> set (filter (\<lambda>p. fst p = n) ?q)"
      unfolding f by (rule last_in_set) simp
    then have k: "fst (last (p # ps)) = n" by simp
    have "map_of ?d n = Some (snd (last (p # ps)))"
      by (simp add: foldl_update_map_of f)
    from distinct_keys_filter [OF d this] k show ?thesis
      unfolding f by (metis prod.collapse)
  qed
  with res show ?thesis by blast
qed

text \<open>
  Two rows named \<open>Alfa\<close> (one with spaces around the name) and a row without a name cell:
  the one entry for \<open>Alfa\<close> has the url and the code of the second.
\<close>

theorem extract_district_units_last_wins_witness:
  "extract_district_units urljoin_sample xobec_sample
     [\<lparr>overflow_name = Some (ascii ''Alfa''), a_href = Some (Some (ascii ''a?xobec=501''))\<rparr>,
      \<lparr>overflow_name = None, a_href = Some (Some (ascii ''c''))\<rparr>,
      \<lparr>overflow_name = Some (ascii '' Alfa ''), a_href = Some (Some (ascii ''b?xobec=502''))\<rparr>]
     (ascii ''https://x/'')
   = Inr [(ascii ''Alfa'',
           \<lparr>url = ascii ''https://x/b?xobec=502'', cislo_obce = Some (ascii ''502'')\<rparr>)]"
proof -
  let ?rows = "[\<lparr>overflow_name = Some (ascii ''Alfa''), a_href = Some (Some (ascii ''a?xobec=501''))\<rparr>,
      \<lparr>overflow_name = None, a_href = Some (Some (ascii ''c''))\<rparr>,
      \<lparr>overflow_name = Some (ascii '' Alfa ''), a_href = Some (Some (ascii ''b?xobec=502''))\<rparr>]"
  let ?q = "[Some (ascii ''Alfa'',
                   \<lparr>url = ascii ''https://x/a?xobec=501'', cislo_obce = Some (ascii ''501'')\<rparr>),
             None,
             Some (ascii ''Alfa'',
                   \<lparr>url = ascii ''https://x/b?xobec=502'', cislo_obce = Some (ascii ''502'')\<rparr>)]"
  have all: "map (unit_of_row urljoin_sample xobec_sample (ascii ''https://x/'')) ?rows = map Inr ?q"
    by (simp add: unit_of_row_def urljoin_sample_def xobec_sample_def strip_def isspace_def
        ascii_def)
  from extract_district_units_last_wins [OF all] obtain d where
    d: "extract_district_units urljoin_sample xobec_sample ?rows (ascii ''https://x/'') = Inr d"
    and one: "filter (\<lambda>e. fst e = ascii ''Alfa'') d =
                [last (filter (\<lambda>p. fst p = ascii ''Alfa'') (List.map_filter id ?q))]"
    by (auto simp: List.map_filter_simps)
  have "d = [(ascii ''Alfa'',
           \<lparr>url = ascii ''https://x/b?xobec=502'', cislo_obce = Some (ascii ''502'')\<rparr>)]"
    using d
    by (simp add: extract_district_units_def unit_of_row_def urljoin_sample_def
        xobec_sample_def strip_def isspace_def ascii_def)
  with d show ?thesis by simp
qed

text \<open>
  C10, as stated, fails when a row has a reference on which \<open>urljoin\<close> raises: of two
  rows named \<open>Alfa\<close>, the second with the reference \<open>//[x\<close>, the function returns no
  entry at all: it ends with \<open>ValueError\<close>.
\<close>

theorem extract_district_units_malformed_href:
  "extract_district_units urljoin_sample xobec_sample
     [\<lparr>overflow_name = Some (ascii ''Alfa''), a_href = Some (Some (ascii ''a?xobec=501''))\<rparr>,
      \<lparr>overflow_name = Some (ascii ''Alfa''), a_href = Some (Some (ascii ''//[x''))\<rparr>]
     (ascii ''https://x/'')
   = Inl ValueError"
  by (simp add: extract_district_units_def unit_of_row_def urljoin_sample_def
      xobec_sample_def strip_def isspace_def ascii_def)

section \<open>Properties of the turnout collector\<close>

text \<open>
  C1 at a concrete run: one municipality \<open>Alfa\<close> with code \<open>506761\<close>, whose page has one
  header cell and four numeric cells. The header starts with the label of the code
  column and then the label of the name column, while the row starts with the name and
  then the code: under the code column stands \<open>Alfa\<close>, under the name column \<open>506761\<close>.
\<close>

theorem turnout_row_fields_swapped:
  "get_district_turnout_summary
     (map_of [(ascii ''https://x/alfa'',
        [\<lparr>th_rowspan2 = [ascii ''Voters''],
          td_cislo = [ascii ''1'', ascii ''1'', ascii ''100'', ascii ''250''], trs = []\<rparr>])])
     [(ascii ''Alfa'', \<lparr>url = ascii ''https://x/alfa'', cislo_obce = Some (ascii ''506761'')\<rparr>)]
   = (Some [CISLO_OBCE, OBEC, ascii ''Voters''],
      [[Some (ascii ''Alfa''), Some (ascii ''506761''), Some (ascii ''250'')]])"
  by (simp add: get_district_turnout_summary_def ascii_def strip_def isspace_def)

text \<open>
  C6, as stated, fails on a run with a single page, which trivially shares its own table
  shape: the first table has no header cell with a double row span and four numeric
  cells, so the header has two labels and the row three fields.
\<close>

theorem turnout_header_length_differs:
  "get_district_turnout_summary
     (map_of [(ascii ''https://x/alfa'',
        [\<lparr>th_rowspan2 = [],
          td_cislo = [ascii ''1'', ascii ''1'', ascii ''100'', ascii ''250''], trs = []\<rparr>])])
     [(ascii ''Alfa'', \<lparr>url = ascii ''https://x/alfa'', cislo_obce = Some (ascii ''506761'')\<rparr>)]
   = (Some [CISLO_OBCE, OBEC],
      [[Some (ascii ''Alfa''), Some (ascii ''506761''), Some (ascii ''250'')]])
   \<and> length [CISLO_OBCE, OBEC]
       \<noteq> length [Some (ascii ''Alfa''), Some (ascii ''506761''), Some (ascii ''250'')]"
  by (simp add: get_district_turnout_summary_def ascii_def strip_def isspace_def)

lemma turnout_loop_lengths:
  assumes "\<forall>(n, d) \<in> set units. \<forall>t ts. fetch (url d) = Some (t # ts) \<longrightarrow>
             length (th_rowspan2 t) = h \<and> length (td_cislo t) - 3 = h"
    and "case headers of None \<Rightarrow> rows = []
         | Some hs \<Rightarrow> length hs = h + 2 \<and> (\<forall>r \<in> set rows. length r = h + 2)"
    and "turnout_loop fetch units headers rows = (headers', rows')"
  shows "case headers' of None \<Rightarrow> rows' = []
         | Some hs \<Rightarrow> length hs = h + 2 \<and> (\<forall>r \<in> set rows'. length r = h + 2)"
  using assms
proof (induction fetch units headers rows rule: turnout_loop.induct)
  case (1 fetch headers rows)
  then show ?case by auto
next
  case (2 fetch district_unit data rest headers rows)
  show ?case
  proof (cases "fetch (url data)")
    case None
    with 2 show ?thesis by simp
  next
    case (Some soup)
    show ?thesis
    proof (cases soup)
      case Nil
      with Some 2 show ?thesis by simp
    next
      case (Cons t ts)
      with Some "2.prems"(1) have sh: "length (th_rowspan2 t) = h" "length (td_cislo t) - 3 = h"
        by auto
      let ?hs = "case headers of
                   None \<Rightarrow> Some ([CISLO_OBCE, OBEC] @ map strip (th_rowspan2 t))
                 | Some h \<Rightarrow> Some h"
      let ?rows = "rows @ [[Some district_unit, cislo_obce data] @
                     map Some (map strip (drop 3 (td_cislo t)))]"
      have inv: "case ?hs of None \<Rightarrow> ?rows = []
         | Some hs \<Rightarrow> length hs = h + 2 \<and> (\<forall>r \<in> set ?rows. length r = h + 2)"
        using "2.prems"(2) sh by (auto split: option.splits)
      have run: "turnout_loop fetch rest ?hs ?rows = (headers', rows')"
        using "2.prems"(3) Some Cons by (simp add: Let_def)
      have rest: "\<forall>(n, d) \<in> set rest. \<forall>t ts. fetch (url d) = Some (t # ts) \<longrightarrow>
             length (th_rowspan2 t) = h \<and> length (td_cislo t) - 3 = h"
        using "2.prems"(1) by auto
      show ?thesis
        using "2.IH"(3) [OF Some Cons refl refl rest inv run] .
    qed
  qed
qed

text \<open>
  C6, amended. When the first table of every page that was fetched has \<open>h\<close> header cells
  with a double row span, and \<open>h\<close> numeric cells are left of its numeric cells once the
  first three are skipped, then a header is returned as soon as a row is, and its length
  is the number of fields of every returned row.
\<close>

theorem turnout_header_length:
  assumes "\<forall>(n, d) \<in> set units. \<forall>t ts. fetch (url d) = Some (t # ts) \<longrightarrow>
             length (th_rowspan2 t) = h \<and> length (td_cislo t) - 3 = h"
    and "get_district_turnout_summary fetch units = (headers, rows)"
    and "r \<in> set rows"
  shows "\<exists>hs. headers = Some hs \<and> length hs = length r"
  using turnout_loop_lengths [OF assms(1), where headers = None and rows = "[]"
      and headers' = headers and rows' = rows] assms(2,3)
  by (auto simp: get_district_turnout_summary_def split: option.splits)

text \<open>
  A run over two municipalities, the page of the second failing to load: one header cell,
  four numeric cells, a header of three labels and a row of three fields.
\<close>

theorem turnout_header_length_witness:
  "get_district_turnout_summary
     (map_of [(ascii ''https://x/alfa'',
        [\<lparr>th_rowspan2 = [ascii ''Voters''],
          td_cislo = [ascii ''1'', ascii ''1'', ascii ''100'', ascii ''250''], trs = []\<rparr>])])
     [(ascii ''Alfa'', \<lparr>url = ascii ''https://x/alfa'', cislo_obce = Some (ascii ''506761'')\<rparr>),
      (ascii ''Beta'', \<lparr>url = ascii ''https://x/beta'', cislo_obce = None\<rparr>)]
   = (Some [CISLO_OBCE, OBEC, ascii ''Voters''],
      [[Some (ascii ''Alfa''), Some (ascii ''506761''), Some (ascii ''250'')]])
   \<and> (\<exists>hs. Some [CISLO_OBCE, OBEC, ascii ''Voters''] = Some hs \<and>
          length hs = length [Some (ascii ''Alfa''), Some (ascii ''506761''), Some (ascii ''250'')])"
proof -
  let ?fetch = "map_of [(ascii ''https://x/alfa'',
        [\<lparr>th_rowspan2 = [ascii ''Voters''],
          td_cislo = [ascii ''1'', ascii ''1'', ascii ''100'', ascii ''250''], trs = []\<rparr>])]"
  let ?units = "[(ascii ''Alfa'', \<lparr>url = ascii ''https://x/alfa'', cislo_obce = Some (ascii ''506761'')\<rparr>),
      (ascii ''Beta'', \<lparr>url = ascii ''https://x/beta'', cislo_obce = None\<rparr>)]"
  have shape: "\<forall>(n, d) \<in> set ?units. \<forall>t ts. ?fetch (url d) = Some (t # ts) \<longrightarrow>
             length (th_rowspan2 t) = 1 \<and> length (td_cislo t) - 3 = 1"
    by (auto simp: ascii_def)
  have run: "get_district_turnout_summary ?fetch ?units
     = (Some [CISLO_OBCE, OBEC, ascii ''Voters''],
        [[Some (ascii ''Alfa''), Some (ascii ''506761''), Some (ascii ''250'')]])"
    by (simp add: get_district_turnout_summary_def ascii_def strip_def isspace_def)
  from turnout_header_length [OF shape run, of "[Some (ascii ''Alfa''), Some (ascii ''506761''), Some (ascii ''250'')]"] run
  show ?thesis by simp
qed

section \<open>Properties of the party results collector\<close>

lemma for_each_append:
  "for_each body (xs @ ys) s =
     (case for_each body xs s of Inl e \<Rightarrow> Inl e | Inr s' \<Rightarrow> for_each body ys s')"
  by (induction xs arbitrary: s) (auto split: sum.splits)

lemma for_each_concat:
  "for_each (\<lambda>xs. for_each body xs) xss s = for_each body (concat xss) s"
  by (induction xss arbitrary: s) (auto simp: for_each_append split: sum.splits)

lemma party_tables_concat:
  "party_tables int_of tables acc = for_each (party_row int_of) (concat (map trs tables)) acc"
proof -
  have "for_each (\<lambda>table. for_each (party_row int_of) (trs table)) tables s
        = for_each (\<lambda>xs. for_each (party_row int_of) xs) (map trs tables) s" for s
    by (induction tables arbitrary: s) (auto split: sum.splits)
  then show ?thesis
    by (simp add: party_tables_def for_each_concat)
qed

lemma party_row_accepted:
  "party_row int_of cell (results, party_list, seen) =
     (case accepted_row cell of
        None \<Rightarrow> Inr (results, party_list, seen)
      | Some (number, name, votes) \<Rightarrow>
          if number \<in> seen then Inr (AList.update name votes results, party_list, seen)
          else case int_of number of
                 None \<Rightarrow> Inl ValueError
               | Some k \<Rightarrow> Inr (AList.update name votes results, party_list @ [(k, name)],
                              insert number seen))"
  by (simp add: party_row_def accepted_row_def Let_def)

lemma first_seen_append:
  "first_seen seen (ps @ qs) = first_seen seen ps @ first_seen (seen \<union> fst ` set ps) qs"
  by (induction seen ps rule: first_seen.induct) (auto simp: insert_absorb)

lemma party_rows_vocabulary:
  assumes "for_each (party_row int_of) rows (results, party_list, seen) = Inr (results', party_list', seen')"
  shows "seen' = seen \<union> fst ` set (List.map_filter accepted_row rows) \<and>
         (\<exists>new. party_list' = party_list @ new \<and>
            map (\<lambda>(k, n). (Some k, n)) new =
              map (\<lambda>(t, n). (int_of t, n))
                (first_seen seen (map (\<lambda>(number, name, votes). (number, name)) (List.map_filter accepted_row rows))))"
  using assms
proof (induction rows arbitrary: results party_list seen)
  case Nil
  then show ?case by (simp add: List.map_filter_simps)
next
  case (Cons cell rows)
  show ?case
  proof (cases "accepted_row cell")
    case None
    with Cons.prems have "for_each (party_row int_of) rows (results, party_list, seen) = Inr (results', party_list', seen')"
      by (simp add: party_row_accepted)
    from Cons.IH [OF this] None show ?thesis
      by (simp add: List.map_filter_simps)
  next
    case (Some a)
    obtain number name votes where a: "a = (number, name, votes)" by (cases a) auto
    show ?thesis
    proof (cases "number \<in> seen")
      case True
      with Cons.prems Some a
      have "for_each (party_row int_of) rows (AList.update name votes results, party_list, seen) = Inr (results', party_list', seen')"
        by (simp add: party_row_accepted)
      from Cons.IH [OF this] Some a True show ?thesis
        by (auto simp: List.map_filter_simps insert_absorb)
    next
      case False
      with Cons.prems Some a obtain k where k: "int_of number = Some k"
        and run: "for_each (party_row int_of) rows
               (AList.update name votes results, party_list @ [(k, name)], insert number seen)
             = Inr (results', party_list', seen')"
        by (auto simp: party_row_accepted split: option.splits)
      from Cons.IH [OF run] Some a False k show ?thesis
        by (auto simp: List.map_filter_simps)
    qed
  qed
qed


lemma party_unit_vocabulary:
  assumes "party_unit int_of fetch entry (party_list, seen, units_data) = Inr (party_list', seen', units_data')"
  shows "seen' = seen \<union> fst ` set (unit_party_rows fetch entry) \<and>
         (\<exists>new. party_list' = party_list @ new \<and>
            map (\<lambda>(k, n). (Some k, n)) new =
              map (\<lambda>(t, n). (int_of t, n))
                (first_seen seen (map (\<lambda>(number, name, votes). (number, name)) (unit_party_rows fetch entry))))"
proof (cases "fetch (url (snd entry))")
  case None
  with assms show ?thesis
    by (cases entry) (simp add: party_unit_def unit_party_rows_def)
next
  case (Some soup)
  show ?thesis
  proof (cases "tl soup = []")
    case True
    with Some assms show ?thesis
      by (cases entry) (simp add: party_unit_def unit_party_rows_def List.map_filter_simps)
  next
    case False
    with Some assms obtain results where
      "for_each (party_row int_of) (concat (map trs (tl soup))) ([], party_list, seen)
         = Inr (results, party_list', seen')"
      by (cases entry) (auto simp: party_unit_def party_tables_concat split: sum.splits)
    from party_rows_vocabulary [OF this] Some show ?thesis
      by (simp add: unit_party_rows_def)
  qed
qed

lemma party_units_vocabulary:
  assumes "for_each (party_unit int_of fetch) units (party_list, seen, units_data)
             = Inr (party_list', seen', units_data')"
  shows "seen' = seen \<union> fst ` set (encountered fetch units) \<and>
         (\<exists>new. party_list' = party_list @ new \<and>
            map (\<lambda>(k, n). (Some k, n)) new =
              map (\<lambda>(t, n). (int_of t, n)) (first_seen seen (encountered fetch units)))"
  using assms
proof (induction units arbitrary: party_list seen units_data)
  case Nil
  then show ?case by (simp add: encountered_def)
next
  case (Cons entry units)
  from Cons.prems obtain pl1 seen1 data1 where
    step: "party_unit int_of fetch entry (party_list, seen, units_data) = Inr (pl1, seen1, data1)"
    and rest: "for_each (party_unit int_of fetch) units (pl1, seen1, data1)
                 = Inr (party_list', seen', units_data')"
    by (auto split: sum.splits)
  let ?here = "map (\<lambda>(number, name, votes). (number, name)) (unit_party_rows fetch entry)"
  from party_unit_vocabulary [OF step] obtain new1 where
    s1: "seen1 = seen \<union> fst ` set ?here" and p1: "pl1 = party_list @ new1"
    and v1: "map (\<lambda>(k, n). (Some k, n)) new1 = map (\<lambda>(t, n). (int_of t, n)) (first_seen seen ?here)"
    by (force simp: image_image case_prod_unfold)
  from Cons.IH [OF rest] obtain new2 where
    s2: "seen' = seen1 \<union> fst ` set (encountered fetch units)" and p2: "party_list' = pl1 @ new2"
    and v2: "map (\<lambda>(k, n). (Some k, n)) new2 =
               map (\<lambda>(t, n). (int_of t, n)) (first_seen seen1 (encountered fetch units))"
    by blast
  have e: "encountered fetch (entry # units) = ?here @ encountered fetch units"
    by (simp add: encountered_def)
  have "seen' = seen \<union> fst ` set (encountered fetch (entry # units))"
    unfolding e s2 s1 by (simp add: image_Un Un_assoc)
  moreover have "party_list' = party_list @ (new1 @ new2)"
    using p1 p2 by simp
  moreover have "map (\<lambda>(k, n). (Some k, n)) (new1 @ new2) =
      map (\<lambda>(t, n). (int_of t, n)) (first_seen seen (encountered fetch (entry # units)))"
    unfolding e first_seen_append using v1 v2 s1 by simp
  ultimately show ?case by blast
qed

lemma first_seen_distinct:
  "distinct (map fst (first_seen seen ps)) \<and> fst ` set (first_seen seen ps) \<subseteq> fst ` set ps - seen"
  by (induction seen ps rule: first_seen.induct) auto

text \<open>
  The collector returns exactly when \<open>int\<close> reads the number text of every pair of
  the vocabulary; otherwise it ends with \<open>ValueError\<close>.
\<close>

lemma party_rows_returns:
  "(\<exists>s. for_each (party_row int_of) rows (results, party_list, seen) = Inr s) \<longleftrightarrow>
   (\<forall>p \<in> set (first_seen seen (map (\<lambda>(number, name, votes). (number, name))
                   (List.map_filter accepted_row rows))). int_of (fst p) \<noteq> None)"
proof (induction rows arbitrary: results party_list seen)
  case Nil
  then show ?case by (simp add: List.map_filter_simps)
next
  case (Cons cell rows)
  show ?case
  proof (cases "accepted_row cell")
    case None
    then show ?thesis
      using Cons.IH [of results party_list seen]
      by (simp add: party_row_accepted List.map_filter_simps)
  next
    case (Some a)
    obtain number name votes where a: "a = (number, name, votes)" by (cases a) auto
    show ?thesis
    proof (cases "number \<in> seen")
      case True
      with Some a show ?thesis
        using Cons.IH [of "AList.update name votes results" party_list seen]
        by (simp add: party_row_accepted List.map_filter_simps)
    next
      case False
      show ?thesis
      proof (cases "int_of number")
        case None
        with False Some a show ?thesis
          by (simp add: party_row_accepted List.map_filter_simps)
      next
        case (Some k)
        with False \<open>accepted_row cell = Some a\<close> a show ?thesis
          using Cons.IH [of "AList.update name votes results" "party_list @ [(k, name)]"
              "insert number seen"]
          by (simp add: party_row_accepted List.map_filter_simps)
      qed
    qed
  qed
qed

lemma party_unit_returns:
  "(\<exists>s. party_unit int_of fetch entry (party_list, seen, units_data) = Inr s) \<longleftrightarrow>
   (\<forall>p \<in> set (first_seen seen (map (\<lambda>(number, name, votes). (number, name))
                   (unit_party_rows fetch entry))). int_of (fst p) \<noteq> None)"
proof (cases "fetch (url (snd entry))")
  case None
  then show ?thesis
    by (cases entry) (simp add: party_unit_def unit_party_rows_def)
next
  case (Some soup)
  show ?thesis
  proof (cases "tl soup = []")
    case True
    with Some show ?thesis
      by (cases entry) (simp add: party_unit_def unit_party_rows_def List.map_filter_simps)
  next
    case False
    have "(\<exists>s. party_unit int_of fetch entry (party_list, seen, units_data) = Inr s) \<longleftrightarrow>
          (\<exists>s. for_each (party_row int_of) (concat (map trs (tl soup))) ([], party_list, seen) = Inr s)"
      using Some False
      by (cases entry) (auto simp: party_unit_def party_tables_concat split: sum.splits)
    moreover have "unit_party_rows fetch entry
        = List.map_filter accepted_row (concat (map trs (tl soup)))"
      using Some by (simp add: unit_party_rows_def)
    ultimately show ?thesis
      using party_rows_returns [of int_of "concat (map trs (tl soup))" "[]" party_list seen]
      by (simp only:)
  qed
qed

lemma party_units_returns:
  "(\<exists>s. for_each (party_unit int_of fetch) units (party_list, seen, units_data) = Inr s) \<longleftrightarrow>
   (\<forall>p \<in> set (first_seen seen (encountered fetch units)). int_of (fst p) \<noteq> None)"
proof (induction units arbitrary: party_list seen units_data)
  case Nil
  then show ?case by (simp add: encountered_def)
next
  case (Cons entry units)
  let ?here = "map (\<lambda>(number, name, votes). (number, name)) (unit_party_rows fetch entry)"
  have e: "encountered fetch (entry # units) = ?here @ encountered fetch units"
    by (simp add: encountered_def)
  show ?case
  proof (cases "party_unit int_of fetch entry (party_list, seen, units_data)")
    case (Inl err)
    then have "\<not> (\<exists>s. party_unit int_of fetch entry (party_list, seen, units_data) = Inr s)"
      by simp
    then have "\<not> (\<forall>p \<in> set (first_seen seen ?here). int_of (fst p) \<noteq> None)"
      unfolding party_unit_returns .
    then have r: "\<not> (\<forall>p \<in> set (first_seen seen (?here @ encountered fetch units)).
                       int_of (fst p) \<noteq> None)"
      by (auto simp: first_seen_append)
    from Inl have l: "\<not> (\<exists>s. for_each (party_unit int_of fetch) (entry # units)
                          (party_list, seen, units_data) = Inr s)"
      by simp
    from l r show ?thesis
      unfolding e by blast
  next
    case (Inr st)
    obtain pl1 seen1 data1 where st: "st = (pl1, seen1, data1)" by (cases st) auto
    from Inr st party_unit_vocabulary [of int_of fetch entry party_list seen units_data pl1 seen1 data1]
    have s1: "seen1 = seen \<union> fst ` set ?here"
      by (force simp: image_image case_prod_unfold)
    from Inr have "\<exists>s. party_unit int_of fetch entry (party_list, seen, units_data) = Inr s"
      by blast
    then have here: "\<forall>p \<in> set (first_seen seen ?here). int_of (fst p) \<noteq> None"
      by (rule party_unit_returns [THEN iffD1])
    from Inr st have "(\<exists>s. for_each (party_unit int_of fetch) (entry # units) (party_list, seen, units_data) = Inr s)
        \<longleftrightarrow> (\<exists>s. for_each (party_unit int_of fetch) units (pl1, seen1, data1) = Inr s)"
      by simp
    also have "\<dots> \<longleftrightarrow> (\<forall>p \<in> set (first_seen seen1 (encountered fetch units)). int_of (fst p) \<noteq> None)"
      by (rule Cons.IH)
    finally show ?thesis
      unfolding e first_seen_append s1 using here by auto
  qed
qed

lemma party_results_returns:
  "(\<exists>res. get_district_party_results int_of fetch units = Inr res) \<longleftrightarrow>
   (\<forall>p \<in> set (first_seen {} (encountered fetch units)). int_of (fst p) \<noteq> None)"
proof -
  have "(\<exists>res. get_district_party_results int_of fetch units = Inr res) \<longleftrightarrow>
        (\<exists>s. for_each (party_unit int_of fetch) units ([], {}, []) = Inr s)"
    by (auto simp: get_district_party_results_def Let_def split: sum.splits)
  then show ?thesis
    by (simp only: party_units_returns)
qed

lemma for_each_ValueError:
  assumes "\<And>x s e. body x s = Inl e \<Longrightarrow> e = ValueError"
    and "for_each body xs s = Inl e"
  shows "e = ValueError"
  using assms(2)
  by (induction xs arbitrary: s) (auto split: sum.splits dest: assms(1))

lemma party_row_ValueError: "party_row int_of cell acc = Inl e \<Longrightarrow> e = ValueError"
  by (cases acc) (auto simp: party_row_def Let_def split: if_splits option.splits)

lemma party_unit_ValueError:
  assumes "party_unit int_of fetch entry st = Inl e"
  shows "e = ValueError"
proof -
  have "e' = ValueError" if "party_tables int_of tables acc = Inl e'" for tables acc e'
    using that unfolding party_tables_def
    by (rule for_each_ValueError [rotated]) (rule for_each_ValueError [rotated], assumption,
        rule party_row_ValueError)
  with assms show ?thesis
    by (cases entry; cases st)
      (auto simp: party_unit_def Let_def split: option.splits if_splits sum.splits)
qed

lemma party_results_ValueError:
  assumes "get_district_party_results int_of fetch units = Inl e"
  shows "e = ValueError"
proof -
  from assms have "for_each (party_unit int_of fetch) units ([], {}, []) = Inl e"
    by (auto simp: get_district_party_results_def Let_def split: sum.splits)
  then show ?thesis
    by (rule for_each_ValueError [rotated]) (rule party_unit_ValueError)
qed

text \<open>
  C5, amended. Whenever the collector returns, its header is \<open>Obec\<close> followed by the names
  of the vocabulary sorted by number, where the vocabulary is \<open>first_seen\<close> of the pairs
  \<open>encountered\<close>, each number text read by \<open>int\<close>: the pairs are deduplicated by the text
  of the party number. The numbers in header order ascend; they ascend strictly when
  \<open>int\<close> gives different numbers for the different texts that occur. The sort is stable
  (\<open>sort_key\<close>), so names with equal numbers stay in the order in which they were met.
\<close>

theorem party_header_vocabulary:
  assumes "get_district_party_results int_of fetch units = Inr (header, rows)"
  shows "\<exists>vocabulary.
           map (\<lambda>(k, n). (Some k, n)) vocabulary =
             map (\<lambda>(t, n). (int_of t, n)) (first_seen {} (encountered fetch units)) \<and>
           header = OBEC # map snd (sort_key fst vocabulary) \<and>
           sorted (map fst (sort_key fst vocabulary)) \<and>
           (inj_on int_of (fst ` set (encountered fetch units)) \<longrightarrow>
              sorted_wrt (<) (map fst (sort_key fst vocabulary)))"
proof -
  from assms obtain party_list seen units_data where
    run: "for_each (party_unit int_of fetch) units ([], {}, []) = Inr (party_list, seen, units_data)"
    and h: "header = OBEC # party_names_ordered party_list"
    by (auto simp: get_district_party_results_def Let_def split: sum.splits)
  let ?fs = "first_seen {} (encountered fetch units)"
  from party_units_vocabulary [OF run]
  have v: "map (\<lambda>(k, n). (Some k, n)) party_list = map (\<lambda>(t, n). (int_of t, n)) ?fs"
    by simp
  have srt: "sorted (map fst (sort_key fst party_list))"
    by (rule sorted_sort_key)
  have strict: "sorted_wrt (<) (map fst (sort_key fst party_list))"
    if inj: "inj_on int_of (fst ` set (encountered fetch units))"
  proof -
    have "map Some (map fst party_list) = map int_of (map fst ?fs)"
      using arg_cong [OF v, of "map fst"] by (simp add: case_prod_unfold comp_def)
    moreover have "distinct (map int_of (map fst ?fs))"
    proof -
      from first_seen_distinct [of "{}" "encountered fetch units"]
      have d: "distinct (map fst ?fs)"
        and sub: "set (map fst ?fs) \<subseteq> fst ` set (encountered fetch units)"
        by auto
      from inj sub have "inj_on int_of (set (map fst ?fs))"
        by (rule inj_on_subset)
      with d show ?thesis
        using distinct_map [of int_of "map fst ?fs"] by blast
    qed
    ultimately have "distinct (map Some (map fst party_list))" by simp
    then have "distinct (map fst party_list)"
      using distinct_map [of Some "map fst party_list"] by blast
    then have "distinct (map fst (sort_key fst party_list))"
      by (simp add: distinct_map)
    with srt show ?thesis
      by (simp add: strict_sorted_iff)
  qed
  from v h srt strict show ?thesis
    unfolding party_names_ordered_def by blast
qed

text \<open>
  Two municipalities; party 2 is met before party 1, and party 1 again, under another
  name, in the second municipality: the header is \<open>Obec, A, B\<close>.
\<close>

theorem party_header_vocabulary_witness:
  "get_district_party_results ascii_int
     (map_of [(ascii ''https://x/alfa'',
        [\<lparr>th_rowspan2 = [], td_cislo = [], trs = []\<rparr>,
         \<lparr>th_rowspan2 = [], td_cislo = [],
          trs = [[ascii ''2'', ascii ''B'', ascii ''7''], [ascii ''1'', ascii ''A'', ascii ''5'']]\<rparr>]),
       (ascii ''https://x/beta'',
        [\<lparr>th_rowspan2 = [], td_cislo = [], trs = []\<rparr>,
         \<lparr>th_rowspan2 = [], td_cislo = [],
          trs = [[ascii ''1'', ascii ''A2'', ascii ''9'']]\<rparr>])])
     [(ascii ''Alfa'', \<lparr>url = ascii ''https://x/alfa'', cislo_obce = None\<rparr>),
      (ascii ''Beta'', \<lparr>url = ascii ''https://x/beta'', cislo_obce = None\<rparr>)]
   = Inr ([OBEC, ascii ''A'', ascii ''B''],
          [[Some (ascii ''Alfa''), Some (ascii ''5''), Some (ascii ''7'')],
           [Some (ascii ''Beta''), Some (ascii ''0''), Some (ascii ''0'')]])
   \<and> (\<exists>vocabulary :: (int \<times> ustr) list.
         [OBEC, ascii ''A'', ascii ''B''] = OBEC # map snd (sort_key fst vocabulary) \<and>
         sorted (map fst (sort_key fst vocabulary)))"
proof -
  let ?fetch = "map_of [(ascii ''https://x/alfa'',
        [\<lparr>th_rowspan2 = [], td_cislo = [], trs = []\<rparr>,
         \<lparr>th_rowspan2 = [], td_cislo = [],
          trs = [[ascii ''2'', ascii ''B'', ascii ''7''], [ascii ''1'', ascii ''A'', ascii ''5'']]\<rparr>]),
       (ascii ''https://x/beta'',
        [\<lparr>th_rowspan2 = [], td_cislo = [], trs = []\<rparr>,
         \<lparr>th_rowspan2 = [], td_cislo = [],
          trs = [[ascii ''1'', ascii ''A2'', ascii ''9'']]\<rparr>])]"
  let ?units = "[(ascii ''Alfa'', \<lparr>url = ascii ''https://x/alfa'', cislo_obce = None\<rparr>),
      (ascii ''Beta'', \<lparr>url = ascii ''https://x/beta'', cislo_obce = None\<rparr>)]"
  have run: "get_district_party_results ascii_int ?fetch ?units
     = Inr ([OBEC, ascii ''A'', ascii ''B''],
          [[Some (ascii ''Alfa''), Some (ascii ''5''), Some (ascii ''7'')],
           [Some (ascii ''Beta''), Some (ascii ''0''), Some (ascii ''0'')]])"
    by (simp add: get_district_party_results_def party_unit_def party_tables_def party_row_def
        party_names_ordered_def party_table_row_def ascii_int_def ascii_nat_def digit_groups_def
        strip_def isspace_def ascii_def Let_def)
  from party_header_vocabulary [OF run]
  have "\<exists>vocabulary :: (int \<times> ustr) list.
         [OBEC, ascii ''A'', ascii ''B''] = OBEC # map snd (sort_key fst vocabulary) \<and>
         sorted (map fst (sort_key fst vocabulary))"
    by (elim exE conjE) (rule exI, rule conjI, assumption, assumption)
  with run show ?thesis
    by (rule conjI)
qed

text \<open>
  C5, as stated, fails when two texts stand for one number. The rows \<open>1, A, 5\<close> and
  \<open>01, B, 6\<close> give two vocabulary entries, both with the number 1: the header holds \<open>A\<close>
  and \<open>B\<close>, which are neither in strictly ascending order of their numbers nor
  deduplicated by number.
\<close>

theorem party_header_equal_numbers:
  "get_district_party_results ascii_int
     (map_of [(ascii ''https://x/alfa'',
        [\<lparr>th_rowspan2 = [], td_cislo = [], trs = []\<rparr>,
         \<lparr>th_rowspan2 = [], td_cislo = [],
          trs = [[ascii ''1'', ascii ''A'', ascii ''5''], [ascii ''01'', ascii ''B'', ascii ''6'']]\<rparr>])])
     [(ascii ''Alfa'', \<lparr>url = ascii ''https://x/alfa'', cislo_obce = None\<rparr>)]
   = Inr ([OBEC, ascii ''A'', ascii ''B''],
          [[Some (ascii ''Alfa''), Some (ascii ''5''), Some (ascii ''6'')]])
   \<and> ascii_int (ascii ''1'') = Some 1 \<and> ascii_int (ascii ''01'') = Some 1"
  by (simp add: get_district_party_results_def party_unit_def party_tables_def party_row_def
      party_names_ordered_def party_table_row_def ascii_int_def ascii_nat_def digit_groups_def
      strip_def isspace_def ascii_def Let_def)

text \<open>
  C4 at a concrete page: a row of three cells whose first cell is \<open>abc\<close>, with a name and
  a vote count. The row counts, its party number has not been seen, and \<open>int("abc")\<close>
  raises \<open>ValueError\<close>, which nothing catches: the collector ends with the exception.
\<close>

theorem party_results_raises_on_number:
  "get_district_party_results ascii_int
     (map_of [(ascii ''https://x/alfa'',
        [\<lparr>th_rowspan2 = [], td_cislo = [], trs = []\<rparr>,
         \<lparr>th_rowspan2 = [], td_cislo = [],
          trs = [[ascii ''abc'', ascii ''Party'', ascii ''10'']]\<rparr>])])
     [(ascii ''Alfa'', \<lparr>url = ascii ''https://x/alfa'', cislo_obce = None\<rparr>)]
   = Inl ValueError"
  by (simp add: get_district_party_results_def party_unit_def party_tables_def party_row_def
      ascii_int_def ascii_nat_def digit_groups_def strip_def isspace_def ascii_def Let_def)

section \<open>Properties of the table merger\<close>

lemma fold_max_ge: "x \<in> set xs \<Longrightarrow> x \<le> fold max xs (a::nat)"
proof (induction xs arbitrary: a)
  case Nil
  then show ?case by simp
next
  case (Cons y ys)
  have mono: "b \<le> fold max ys b" for b :: nat
    by (induction ys arbitrary: b) (auto intro: order_trans [OF max.cobounded2])
  from Cons show ?case
    by (auto intro: order_trans [OF max.cobounded1 mono])
qed

lemma DataFrame_columns: "DataFrame rows cols = Inr df \<Longrightarrow> columns df = cols"
  by (auto simp: DataFrame_def Let_def split: if_splits)

lemma DataFrame_row_length:
  assumes "DataFrame rows cols = Inr df" and "r \<in> set (data df)"
  shows "length r = length cols"
proof -
  from assms have ne: "rows \<noteq> []" and w: "fold max (map length rows) 0 = length cols"
    and d: "data df = map (\<lambda>r. r @ replicate (length cols - length r) None) rows"
    by (auto simp: DataFrame_def Let_def split: if_splits)
  from assms(2) d obtain r0 where r0: "r0 \<in> set rows"
    and r: "r = r0 @ replicate (length cols - length r0) None"
    by auto
  from r0 have "length r0 \<le> fold max (map length rows) 0"
    by (intro fold_max_ge) simp
  with w r show ?thesis by simp
qed

lemma DataFrame_rectangular:
  assumes "\<forall>r \<in> set rows. length r = length cols"
  shows "DataFrame rows cols = Inr \<lparr>columns = cols, data = rows\<rparr>"
proof (cases rows)
  case Nil
  then show ?thesis by (simp add: DataFrame_def)
next
  case (Cons r rs)
  have "fold max (map length xs) a = max a (length cols)"
    if "\<forall>r \<in> set xs. length r = length cols" "xs \<noteq> []" for xs :: "cell list list" and a
    using that
  proof (induction xs arbitrary: a)
    case Nil
    then show ?case by simp
  next
    case (Cons x xs)
    then show ?case by (cases xs) (auto simp: max.assoc max.commute)
  qed
  with assms Cons have "fold max (map length rows) 0 = length cols"
    by (metis list.distinct(1) max_0L)
  with assms Cons show ?thesis
    by (simp add: DataFrame_def Let_def map_idI)
qed

lemma canonical_label_OBEC: "canonical_label c = OBEC \<longleftrightarrow> c = OBEC"
  by (simp add: canonical_label_def rename_map_def OBEC_def ascii_def)

lemma key_position_canonical:
  "key_position OBEC (map canonical_label hs) = key_position OBEC hs"
  by (induction hs) (simp_all add: key_position_def canonical_label_OBEC)

lemma key_position_less: "key \<in> set cols \<Longrightarrow> key_position key cols < length cols"
  unfolding key_position_def by (induction cols) auto

lemma length_remove_nth: "i < length xs \<Longrightarrow> length (remove_nth i xs) = length xs - 1"
  by (simp add: remove_nth_def)


lemma merge_outer_Inr:
  assumes "merge_outer L R key = Inr m"
  shows "key \<in> set (columns L)" and "key \<in> set (columns R)"
    and "data m =
      concat (map (join_left (key_position key (columns L)) (key_position key (columns R))
                     (length (columns R) - 1) (data R)) (data L)) @
      right_only (key_position key (columns L)) (key_position key (columns R))
        (length (columns L)) (data L) (data R)"
    and "columns m =
      merged_columns (columns L) (remove_nth (key_position key (columns R)) (columns R))"
proof -
  from assms show "key \<in> set (columns L)" and inR: "key \<in> set (columns R)"
    by (simp_all add: merge_outer_def split: if_splits)
  from inR have len: "length (remove_nth (key_position key (columns R)) (columns R)) = length (columns R) - 1"
    by (simp add: length_remove_nth key_position_less)
  from assms len show "data m =
      concat (map (join_left (key_position key (columns L)) (key_position key (columns R))
                     (length (columns R) - 1) (data R)) (data L)) @
      right_only (key_position key (columns L)) (key_position key (columns R))
        (length (columns L)) (data L) (data R)"
    by (auto simp: merge_outer_def Let_def split: if_splits)
  from assms show "columns m =
      merged_columns (columns L) (remove_nth (key_position key (columns R)) (columns R))"
    by (auto simp: merge_outer_def Let_def split: if_splits)
qed

lemma join_left_key:
  "i < length l \<Longrightarrow> row \<in> set (join_left i j w rs l) \<Longrightarrow> row ! i = l ! i"
  by (auto simp: join_left_def nth_append split: list.splits)

lemma join_left_unmatched:
  assumes "l ! i \<notin> set (map (\<lambda>r. r ! j) rs)"
  shows "join_left i j w rs l = [l @ replicate w None]"
proof -
  from assms have "filter (\<lambda>r. r ! j = l ! i) rs = []"
    by (force simp: filter_empty_conv)
  then show ?thesis by (simp add: join_left_def)
qed

lemma filter_join_left:
  assumes "\<forall>l \<in> set ls. i < length l" and "k \<notin> set (map (\<lambda>r. r ! j) rs)"
  shows "filter (\<lambda>row. row ! i = k) (concat (map (join_left i j w rs) ls))
           = map (\<lambda>l. l @ replicate w None) (filter (\<lambda>l. l ! i = k) ls)"
  using assms(1)
proof (induction ls)
  case Nil
  then show ?case by simp
next
  case (Cons l ls)
  show ?case
  proof (cases "l ! i = k")
    case True
    with assms(2) have "join_left i j w rs l = [l @ replicate w None]"
      by (intro join_left_unmatched) simp
    with Cons True show ?thesis by (simp add: nth_append)
  next
    case False
    with Cons.prems have "filter (\<lambda>row. row ! i = k) (join_left i j w rs l) = []"
      by (auto simp: filter_empty_conv dest: join_left_key)
    with Cons False show ?thesis by simp
  qed
qed


lemma right_only_nth:
  "i < n \<Longrightarrow> ((replicate n None)[i := x] @ ys) ! i = (x :: cell)"
  by (simp add: nth_append)


lemma filter_right_only_absent:
  assumes "i < n" and "k \<notin> set (map (\<lambda>r. r ! j) rs)"
  shows "filter (\<lambda>row. row ! i = k) (right_only i j n ls rs) = []"
proof -
  have "row ! i \<noteq> k" if "row \<in> set (right_only i j n ls rs)" for row
  proof -
    from that obtain r where "r \<in> set rs" and "row = (replicate n None)[i := r ! j] @ remove_nth j r"
      by (auto simp: right_only_def)
    with assms show ?thesis
      by (auto simp: right_only_nth)
  qed
  then show ?thesis
    by (simp only: filter_empty_conv) blast
qed

lemma merge_outer_left_only:
  assumes m: "merge_outer L R key = Inr m"
    and wf: "\<forall>l \<in> set (data L). length l = length (columns L)"
    and absent: "k \<notin> set (map (\<lambda>r. r ! key_position key (columns R)) (data R))"
  shows "filter (\<lambda>row. row ! key_position key (columns L) = k) (data m) =
           map (\<lambda>l. l @ replicate (length (columns R) - 1) None)
             (filter (\<lambda>l. l ! key_position key (columns L) = k) (data L))"
proof -
  note d = merge_outer_Inr [OF m]
  have i: "key_position key (columns L) < length (columns L)"
    using d(1) by (rule key_position_less)
  with wf have a: "\<forall>l \<in> set (data L). key_position key (columns L) < length l"
    by simp
  show ?thesis
    unfolding d(3) filter_append filter_join_left [OF a absent]
      filter_right_only_absent [OF i absent]
    by simp
qed


lemma merge_two_tables_Inr:
  assumes "merge_two_tables (Some headers1) rows1 headers2 rows2 = Inr m"
  obtains df1 df2 where "DataFrame rows1 headers1 = Inr df1" and "DataFrame rows2 headers2 = Inr df2"
    and "merge_outer (rename df1) df2 OBEC = Inr m"
  using assms by (auto simp: merge_two_tables_def split: sum.splits)

lemma rename_frame:
  assumes "DataFrame rows cols = Inr df"
  shows "columns (rename df) = map canonical_label cols" and "data (rename df) = data df"
    and "\<forall>l \<in> set (data (rename df)). length l = length (columns (rename df))"
  using DataFrame_columns [OF assms] DataFrame_row_length [OF assms]
  by (simp_all add: rename_def)

lemma merge_two_tables_left_rows:
  assumes "DataFrame rows1 headers1 = Inr df1" and "DataFrame rows2 headers2 = Inr df2"
    and "merge_two_tables (Some headers1) rows1 headers2 rows2 = Inr m"
    and "k \<notin> set (map (\<lambda>r. r ! key_position OBEC headers2) (data df2))"
  shows "filter (\<lambda>row. row ! key_position OBEC headers1 = k) (data m) =
              map (\<lambda>l. l @ replicate (length headers2 - 1) None)
                (filter (\<lambda>l. l ! key_position OBEC headers1 = k) (data df1))"
proof -
  from assms have m: "merge_outer (rename df1) df2 OBEC = Inr m"
    by (simp add: merge_two_tables_def)
  note r = rename_frame [OF assms(1)]
  note c2 = DataFrame_columns [OF assms(2)]
  from merge_outer_left_only [OF m r(3), of k] assms(4)
  show ?thesis
    by (simp add: r(1,2) c2 key_position_canonical)
qed












lemmas merge_eval = merge_two_tables_def DataFrame_def rename_def canonical_label_def
  rename_map_def merge_outer_def join_left_def right_only_def merged_columns_def
  key_position_def remove_nth_def OBEC_def CISLO_OBCE_def ascii_def Let_def



lemma party_results_shape:
  assumes "get_district_party_results int_of fetch units = Inr (headers2, rows2)"
  shows "\<exists>names. headers2 = OBEC # names \<and>
           (\<forall>r \<in> set rows2. length r = length headers2 \<and> r \<noteq> [])"
  using assms
  by (auto simp: get_district_party_results_def party_table_row_def Let_def split: sum.splits)

text \<open>
  C3, amended. The second table is what the party collector returns. In a row of the
  merged frame whose key is the name of no municipality of the party rows, every party
  column (the fields after those of the first table) is a missing value, which the CSV
  file shows as an empty field; it is not \<open>0\<close>.
\<close>

theorem merge_absent_municipality_party_columns:
  assumes "get_district_party_results int_of fetch units = Inr (headers2, rows2)"
    and "merge_two_tables (Some headers1) rows1 headers2 rows2 = Inr m"
    and "k \<notin> set (map hd rows2)"
    and "row \<in> set (data m)" and "row ! key_position OBEC headers1 = k"
  shows "drop (length headers1) row = replicate (length headers2 - 1) None"
proof -
  from party_results_shape [OF assms(1)] obtain names where
    h2: "headers2 = OBEC # names" and sh: "\<forall>r \<in> set rows2. length r = length headers2 \<and> r \<noteq> []"
    by blast
  then have d2: "DataFrame rows2 headers2 = Inr \<lparr>columns = headers2, data = rows2\<rparr>"
    by (intro DataFrame_rectangular) simp
  from assms(2) obtain df1 where d1: "DataFrame rows1 headers1 = Inr df1"
    by (rule merge_two_tables_Inr)
  have j: "key_position OBEC headers2 = 0"
    by (simp add: h2 key_position_def)
  have "map (\<lambda>r. r ! 0) rows2 = map hd rows2"
    using sh by (auto simp: hd_conv_nth)
  with assms(3) have absent: "k \<notin> set (map (\<lambda>r. r ! key_position OBEC headers2)
      (data \<lparr>columns = headers2, data = rows2\<rparr>))"
    by (simp add: j)
  have "row \<in> set (filter (\<lambda>row. row ! key_position OBEC headers1 = k) (data m))"
    using assms(4,5) by simp
  then have "row \<in> set (map (\<lambda>l. l @ replicate (length headers2 - 1) None)
                (filter (\<lambda>l. l ! key_position OBEC headers1 = k) (data df1)))"
    by (simp only: merge_two_tables_left_rows [OF d1 d2 assms(2) absent])
  then obtain l where "l \<in> set (data df1)" and row: "row = l @ replicate (length headers2 - 1) None"
    by auto
  with DataFrame_row_length [OF d1] show ?thesis
    by simp
qed


text \<open>
  C3, as stated, on a run of both collectors and the merge. The page of \<open>Alfa\<close> has one
  table: the turnout collector returns a row for it, the party collector, which skips the
  first table, none. \<open>Beta\<close> reports 5 votes for party \<open>X\<close>. In the merged frame the
  party column \<open>X\<close> of the row of \<open>Alfa\<close> is a missing value, not \<open>0\<close>. (The row of
  \<open>Beta\<close> from the turnout table finds no partner either: its \<open>Obec\<close> field is the code.)
\<close>

theorem main_tables_absent_municipality:
  "main_tables ascii_int
     (map_of [(ascii ''https://x/alfa'', [\<lparr>th_rowspan2 = [], td_cislo = [], trs = []\<rparr>]),
              (ascii ''https://x/beta'',
               [\<lparr>th_rowspan2 = [], td_cislo = [], trs = []\<rparr>,
                \<lparr>th_rowspan2 = [], td_cislo = [],
                 trs = [[ascii ''7'', ascii ''X'', ascii ''5'']]\<rparr>])])
     (map_of [(ascii ''https://x/alfa'', [\<lparr>th_rowspan2 = [], td_cislo = [], trs = []\<rparr>]),
              (ascii ''https://x/beta'',
               [\<lparr>th_rowspan2 = [], td_cislo = [], trs = []\<rparr>,
                \<lparr>th_rowspan2 = [], td_cislo = [],
                 trs = [[ascii ''7'', ascii ''X'', ascii ''5'']]\<rparr>])])
     [(ascii ''Alfa'', \<lparr>url = ascii ''https://x/alfa'', cislo_obce = Some (ascii ''1'')\<rparr>),
      (ascii ''Beta'', \<lparr>url = ascii ''https://x/beta'', cislo_obce = Some (ascii ''2'')\<rparr>)]
   = Inr \<lparr>columns = [CISLO_OBCE, OBEC, ascii ''X''],
          data = [[Some (ascii ''Alfa''), Some (ascii ''1''), None],
                  [Some (ascii ''Beta''), Some (ascii ''2''), None],
                  [None, Some (ascii ''Beta''), Some (ascii ''5'')]]\<rparr>"
  by (simp add: main_tables_def get_district_turnout_summary_def
      get_district_party_results_def party_unit_def party_tables_def party_row_def
      party_names_ordered_def party_table_row_def ascii_int_def ascii_nat_def digit_groups_def
      strip_def isspace_def merge_eval)


text \<open>
  The party collector returns a row for \<open>Beta\<close> only; merged with a turnout table that
  has \<open>Alfa\<close> and \<open>Beta\<close> under \<open>Obec\<close>, the party column of \<open>Alfa\<close> is missing.
\<close>

theorem merge_absent_municipality_party_columns_witness:
  "get_district_party_results ascii_int
     (map_of [(ascii ''https://x/beta'',
               [\<lparr>th_rowspan2 = [], td_cislo = [], trs = []\<rparr>,
                \<lparr>th_rowspan2 = [], td_cislo = [],
                 trs = [[ascii ''7'', ascii ''X'', ascii ''5'']]\<rparr>])])
     [(ascii ''Alfa'', \<lparr>url = ascii ''https://x/alfa'', cislo_obce = Some (ascii ''1'')\<rparr>),
      (ascii ''Beta'', \<lparr>url = ascii ''https://x/beta'', cislo_obce = Some (ascii ''2'')\<rparr>)]
     = Inr ([OBEC, ascii ''X''], [[Some (ascii ''Beta''), Some (ascii ''5'')]]) \<and>
   merge_two_tables (Some [OBEC, ascii ''Voters''])
     [[Some (ascii ''Alfa''), Some (ascii ''100'')], [Some (ascii ''Beta''), Some (ascii ''50'')]]
     [OBEC, ascii ''X''] [[Some (ascii ''Beta''), Some (ascii ''5'')]]
     = Inr \<lparr>columns = [OBEC, ascii ''Voters'', ascii ''X''],
            data = [[Some (ascii ''Alfa''), Some (ascii ''100''), None],
                    [Some (ascii ''Beta''), Some (ascii ''50''), Some (ascii ''5'')]]\<rparr> \<and>
   drop (length [OBEC, ascii ''Voters'']) [Some (ascii ''Alfa''), Some (ascii ''100''), None]
     = replicate (length [OBEC, ascii ''X''] - 1) None"
proof -
  let ?fetch = "map_of [(ascii ''https://x/beta'',
               [\<lparr>th_rowspan2 = [], td_cislo = [], trs = []\<rparr>,
                \<lparr>th_rowspan2 = [], td_cislo = [],
                 trs = [[ascii ''7'', ascii ''X'', ascii ''5'']]\<rparr>])]"
  let ?units = "[(ascii ''Alfa'', \<lparr>url = ascii ''https://x/alfa'', cislo_obce = Some (ascii ''1'')\<rparr>),
      (ascii ''Beta'', \<lparr>url = ascii ''https://x/beta'', cislo_obce = Some (ascii ''2'')\<rparr>)]"
  let ?m = "\<lparr>columns = [OBEC, ascii ''Voters'', ascii ''X''],
            data = [[Some (ascii ''Alfa''), Some (ascii ''100''), None],
                    [Some (ascii ''Beta''), Some (ascii ''50''), Some (ascii ''5'')]]\<rparr>"
  have party: "get_district_party_results ascii_int ?fetch ?units
     = Inr ([OBEC, ascii ''X''], [[Some (ascii ''Beta''), Some (ascii ''5'')]])"
    by (simp add: get_district_party_results_def party_unit_def party_tables_def party_row_def
        party_names_ordered_def party_table_row_def ascii_int_def ascii_nat_def digit_groups_def
        strip_def isspace_def ascii_def Let_def)
  have m: "merge_two_tables (Some [OBEC, ascii ''Voters''])
     [[Some (ascii ''Alfa''), Some (ascii ''100'')], [Some (ascii ''Beta''), Some (ascii ''50'')]]
     [OBEC, ascii ''X''] [[Some (ascii ''Beta''), Some (ascii ''5'')]] = Inr ?m"
    by (simp add: merge_eval)
  have absent: "Some (ascii ''Alfa'') \<notin> set (map hd [[Some (ascii ''Beta''), Some (ascii ''5'')]])"
    by (simp add: ascii_def)
  have row: "[Some (ascii ''Alfa''), Some (ascii ''100''), None] \<in> set (data ?m)"
    by simp
  have key: "[Some (ascii ''Alfa''), Some (ascii ''100''), None] !
      key_position OBEC [OBEC, ascii ''Voters''] = Some (ascii ''Alfa'')"
    by (simp add: key_position_def)
  from merge_absent_municipality_party_columns [OF party m absent row key] party m
  show ?thesis
    by (intro conjI)
qed

lemma canonical_label_not_malformed: "map_of rename_map (canonical_label c) = None"
  by (simp add: canonical_label_def rename_map_def ascii_def)

lemma suffixed_not_malformed: "map_of rename_map (c @ ascii ''_x'') = None"
proof -
  have "\<forall>bad \<in> fst ` set rename_map. last bad \<noteq> 120"
    by (simp add: rename_map_def ascii_def)
  moreover have "last (c @ ascii ''_x'') = 120"
    by (simp add: ascii_def)
  ultimately have "c @ ascii ''_x'' \<notin> fst ` set rename_map"
    by metis
  then show ?thesis
    by (simp add: map_of_eq_None_iff)
qed

text \<open>
  C8, amended. The columns of the merged frame are the labels of the first table, each
  replaced by its canonical form, whatever its position, followed by the labels of the
  second table without \<open>Obec\<close>, which are not rewritten (\<open>merged_columns\<close> adds the
  suffixes of pandas to a label that both tables have). None of the six malformed labels
  is left among the columns that stem from the first table, and \<open>canonical_label\<close> sends
  each of them to the form that the mapping gives.
\<close>

theorem merge_two_tables_renames_first_table:
  assumes "merge_two_tables (Some headers1) rows1 headers2 rows2 = Inr m"
  shows "columns m = merged_columns (map canonical_label headers1)
                       (remove_nth (key_position OBEC headers2) headers2) \<and>
         set (take (length headers1) (columns m)) \<inter> fst ` set rename_map = {} \<and>
         map canonical_label (map fst rename_map) = map snd rename_map"
proof -
  from assms obtain df1 df2 where d1: "DataFrame rows1 headers1 = Inr df1"
    and d2: "DataFrame rows2 headers2 = Inr df2"
    and m: "merge_outer (rename df1) df2 OBEC = Inr m"
    by (rule merge_two_tables_Inr)
  have cols: "columns m = merged_columns (map canonical_label headers1)
                       (remove_nth (key_position OBEC headers2) headers2)"
    using merge_outer_Inr(4) [OF m] rename_frame(1) [OF d1] DataFrame_columns [OF d2]
    by simp
  have "map_of rename_map c = None" if "c \<in> set (take (length headers1) (columns m))" for c
  proof -
    from that obtain c0 where
      "c = canonical_label c0 \<or> c = canonical_label c0 @ ascii ''_x''"
      unfolding cols merged_columns_def by auto
    then show ?thesis
      by (auto simp: canonical_label_not_malformed suffixed_not_malformed)
  qed
  then have none: "set (take (length headers1) (columns m)) \<inter> fst ` set rename_map = {}"
    by (auto simp: map_of_eq_None_iff)
  have tab: "map canonical_label (map fst rename_map) = map snd rename_map"
    by (simp add: canonical_label_def rename_map_def ascii_def)
  from cols none tab show ?thesis by blast
qed

text \<open>
  Two malformed labels in the first table, in another order than the mapping lists them:
  both are rewritten.
\<close>

theorem merge_two_tables_renames_first_table_witness:
  "merge_two_tables
     (Some [CISLO_OBCE, OBEC, ascii ''Platn'' @ [233] @ ascii ''hlasy'',
            ascii ''Voli'' @ [269] @ ascii ''iv seznamu''])
     [] [OBEC, ascii ''X''] []
   = Inr \<lparr>columns = [CISLO_OBCE, OBEC, ascii ''Platn'' @ [233] @ ascii '' hlasy'',
                      ascii ''Voli'' @ [269] @ ascii ''i v seznamu'', ascii ''X''],
          data = []\<rparr> \<and>
   [CISLO_OBCE, OBEC, ascii ''Platn'' @ [233] @ ascii '' hlasy'',
    ascii ''Voli'' @ [269] @ ascii ''i v seznamu'', ascii ''X'']
   = merged_columns
       (map canonical_label [CISLO_OBCE, OBEC, ascii ''Platn'' @ [233] @ ascii ''hlasy'',
                             ascii ''Voli'' @ [269] @ ascii ''iv seznamu''])
       (remove_nth (key_position OBEC [OBEC, ascii ''X'']) [OBEC, ascii ''X''])"
proof -
  have m: "merge_two_tables
     (Some [CISLO_OBCE, OBEC, ascii ''Platn'' @ [233] @ ascii ''hlasy'',
            ascii ''Voli'' @ [269] @ ascii ''iv seznamu''])
     [] [OBEC, ascii ''X''] []
   = Inr \<lparr>columns = [CISLO_OBCE, OBEC, ascii ''Platn'' @ [233] @ ascii '' hlasy'',
                      ascii ''Voli'' @ [269] @ ascii ''i v seznamu'', ascii ''X''],
          data = []\<rparr>"
    by (simp add: merge_eval)
  from merge_two_tables_renames_first_table [OF m] m show ?thesis
    by simp
qed

text \<open>
  C8, as stated, fails for a malformed label in the second table: only \<open>df1\<close> is renamed,
  and the label reaches the merged frame as it is.
\<close>

theorem merge_two_tables_second_table_not_renamed:
  "merge_two_tables (Some [OBEC]) [] [OBEC, ascii ''Platn'' @ [233] @ ascii ''hlasy''] []
   = Inr \<lparr>columns = [OBEC, ascii ''Platn'' @ [233] @ ascii ''hlasy''], data = []\<rparr>"
  by (simp add: merge_eval)

end
